theory Spec2Isabelle
  imports Complex_Main "HOL-Library.Word" "HOL-Library.Log_Nat"
begin

unbundle bit_operations_syntax

section \<open>Text and characters\<close>

text \<open>
  The detector works on Python \<open>str\<close> values. A text is modelled as a list of
  characters, one \<^typ>\<open>char\<close> per code point, over the code points 0 to 255; the
  character tests below follow Python 3 on that range. Code points above 255 are outside
  the model.
\<close>

definition code :: "char \<Rightarrow> nat" where
  "code c = of_char c"

definition in_range :: "char \<Rightarrow> char \<Rightarrow> char \<Rightarrow> bool" where
  "in_range lo hi c \<longleftrightarrow> code lo \<le> code c \<and> code c \<le> code hi"

definition ascii_lower :: "char \<Rightarrow> char" where
  "ascii_lower c = (if in_range CHR ''A'' CHR ''Z'' c then char_of (code c + 32) else c)"

definition ascii_upper :: "char \<Rightarrow> char" where
  "ascii_upper c = (if in_range CHR ''a'' CHR ''z'' c then char_of (code c - 32) else c)"

text \<open>\<open>\d\<close> of a \<open>str\<close> pattern: the decimal digits; below 256 these are 0 to 9.\<close>

definition is_digit :: "char \<Rightarrow> bool" where
  "is_digit c = in_range CHR ''0'' CHR ''9'' c"

text \<open>
  \<open>\s\<close> of a \<open>str\<close> pattern: the characters for which \<open>str.isspace\<close> holds; below
  256 these are tab, line feed, vertical tab, form feed, carriage return, the four
  separators 28 to 31, space, next line (133) and no-break space (160).
\<close>

definition is_space :: "char \<Rightarrow> bool" where
  "is_space c = (code c \<in> {9, 10, 11, 12, 13, 28, 29, 30, 31, 32, 133, 160})"

text \<open>
  \<open>str.upper\<close>, one character at a time. The sharp s (223) becomes the two letters SS;
  the letters 224 to 254 other than the division sign move down by 32. The micro sign
  (181) and y with diaeresis (255) have capitals above 255; they are left in place, which
  no pattern of this program can tell apart from their capitals.
\<close>

definition upper_char :: "char \<Rightarrow> string" where
  "upper_char c =
     (if in_range CHR ''a'' CHR ''z'' c then [char_of (code c - 32)]
      else if code c = 223 then ''SS''
      else if 224 \<le> code c \<and> code c \<le> 254 \<and> code c \<noteq> 247 then [char_of (code c - 32)]
      else [c])"

definition str_upper :: "string \<Rightarrow> string" where
  "str_upper s = concat (map upper_char s)"


section \<open>The regular expressions of the program\<close>

text \<open>
  Every pattern of the program is a sequence of single-character classes, each with a
  repetition count, and one capture group at most. A \<open>piece\<close> is a class with its
  bounds \<open>{lo,hi}\<close> (\<open>None\<close> for no upper bound); a \<open>regex\<close> is the pieces before the
  group, those of the group and those after it.
\<close>

datatype cls = Lit char | Range char char | Digit | Space | Union cls cls

datatype piece = Piece cls nat "nat option"

datatype regex = Regex "piece list" "piece list" "piece list"

abbreviation one :: "cls \<Rightarrow> piece" where
  "one c \<equiv> Piece c 1 (Some 1)"

abbreviation star :: "cls \<Rightarrow> piece" where
  "star c \<equiv> Piece c 0 None"

abbreviation plus1 :: "cls \<Rightarrow> piece" where
  "plus1 c \<equiv> Piece c 1 None"

abbreviation opt :: "cls \<Rightarrow> piece" where
  "opt c \<equiv> Piece c 0 (Some 1)"

abbreviation lits :: "string \<Rightarrow> piece list" where
  "lits s \<equiv> map (\<lambda>c. one (Lit c)) s"

text \<open>
  Membership of a character in a class; the flag is \<open>re.IGNORECASE\<close>, under which a
  letter also matches in its other case.
\<close>

fun cls_mem :: "bool \<Rightarrow> cls \<Rightarrow> char \<Rightarrow> bool" where
  "cls_mem ic (Lit a) c = (if ic then ascii_lower c = ascii_lower a else c = a)"
| "cls_mem ic (Range lo hi) c =
     (in_range lo hi c \<or> (ic \<and> (in_range lo hi (ascii_lower c) \<or> in_range lo hi (ascii_upper c))))"
| "cls_mem ic Digit c = is_digit c"
| "cls_mem ic Space c = is_space c"
| "cls_mem ic (Union a b) c = (cls_mem ic a c \<or> cls_mem ic b c)"

primrec first_some :: "'a option list \<Rightarrow> 'a option" where
  "first_some [] = None"
| "first_some (x # xs) = (case x of Some y \<Rightarrow> Some y | None \<Rightarrow> first_some xs)"

text \<open>
  Matching a sequence of pieces at the start of a string, as the backtracking matcher of
  \<open>re\<close> does: a piece first takes as many characters as it can (up to its upper bound),
  and gives them back one at a time, down to its lower bound, while the rest of the
  pattern fails. The result lists what each piece consumed.
\<close>

fun match_here :: "bool \<Rightarrow> piece list \<Rightarrow> string \<Rightarrow> string list option" where
  "match_here ic [] s = Some []"
| "match_here ic (Piece c lo hi # ps) s =
     (let avail = length (takeWhile (cls_mem ic c) s);
          top = (case hi of None \<Rightarrow> avail | Some h \<Rightarrow> min h avail)
      in first_some
           (map (\<lambda>n. map_option ((#) (take n s)) (match_here ic ps (drop n s)))
                (rev [lo ..< Suc top])))"

fun pieces :: "regex \<Rightarrow> piece list" where
  "pieces (Regex pre grp post) = pre @ grp @ post"

text \<open>What a match consumed in all (\<open>group(0)\<close>) and in the capture group (\<open>group(1)\<close>).\<close>

fun group0 :: "string list \<Rightarrow> string" where
  "group0 ms = concat ms"

fun group1 :: "regex \<Rightarrow> string list \<Rightarrow> string" where
  "group1 (Regex pre grp post) ms = concat (take (length grp) (drop (length pre) ms))"

text \<open>\<open>re.search\<close>: the match at the leftmost position that has one.\<close>

fun search :: "bool \<Rightarrow> regex \<Rightarrow> string \<Rightarrow> string list option" where
  "search ic r [] = match_here ic (pieces r) []"
| "search ic r (c # cs) =
     (case match_here ic (pieces r) (c # cs) of
        Some ms \<Rightarrow> Some ms
      | None \<Rightarrow> search ic r cs)"

text \<open>
  \<open>re.findall\<close> for a pattern without a group: the matched strings from left to right,
  each search starting where the last match ended (one character further after an empty
  match).
\<close>

function findall :: "bool \<Rightarrow> regex \<Rightarrow> string \<Rightarrow> string list" where
  "findall ic r s =
     (case match_here ic (pieces r) s of
        Some ms \<Rightarrow>
          (if s = [] then [group0 ms]
           else group0 ms # findall ic r (drop (max 1 (length (group0 ms))) s))
      | None \<Rightarrow> (if s = [] then [] else findall ic r (tl s)))"
  by pat_completeness auto
termination
  by (relation "measure (\<lambda>(ic, r, s). length s)") auto

declare findall.simps [simp del]


section \<open>Field parsers\<close>

text \<open>
  \<open>gstin_regex = r'[0-9]{2}[A-Z]{5}[0-9]{4}[A-Z]{1}[1-9A-Z]{1}[Z]{1}[0-9A-Z]{1}'\<close>
\<close>

definition gstin_regex :: regex where
  "gstin_regex = Regex
     [Piece (Range CHR ''0'' CHR ''9'') 2 (Some 2),
      Piece (Range CHR ''A'' CHR ''Z'') 5 (Some 5),
      Piece (Range CHR ''0'' CHR ''9'') 4 (Some 4),
      Piece (Range CHR ''A'' CHR ''Z'') 1 (Some 1),
      Piece (Union (Range CHR ''1'' CHR ''9'') (Range CHR ''A'' CHR ''Z'')) 1 (Some 1),
      Piece (Lit CHR ''Z'') 1 (Some 1),
      Piece (Union (Range CHR ''0'' CHR ''9'') (Range CHR ''A'' CHR ''Z'')) 1 (Some 1)]
     [] []"

text \<open>
  \<open>matches = re.findall(gstin_regex, text.upper())\<close>, then
  \<open>matches[0] if matches else None\<close>.
\<close>

definition extract_gstin :: "string \<Rightarrow> string option" where
  "extract_gstin text =
     (case findall False gstin_regex (str_upper text) of
        [] \<Rightarrow> None
      | m # _ \<Rightarrow> Some m)"

text \<open>\<open>rate_regex = r'GST\s*@?\s*(\d+)%'\<close>, searched with \<open>re.IGNORECASE\<close>.\<close>

definition rate_regex :: regex where
  "rate_regex = Regex
     (lits ''GST'' @ [star Space, opt (Lit CHR ''@''), star Space])
     [plus1 Digit]
     [one (Lit CHR ''%'')]"

definition extract_gst_rate :: "string \<Rightarrow> string option" where
  "extract_gst_rate text =
     (case search True rate_regex text of
        Some ms \<Rightarrow> Some (group1 rate_regex ms)
      | None \<Rightarrow> None)"

text \<open>
  The three amount patterns of \<open>check_calculations\<close>, each searched with
  \<open>re.IGNORECASE\<close>:
  \<open>r'Total\s*:\s*(\d+\.\d{2})'\<close>, \<open>r'Sub\s*Total\s*:\s*(\d+\.\d{2})'\<close> and
  \<open>r'GST\s*:\s*(\d+\.\d{2})'\<close>.
\<close>

definition amount_group :: "piece list" where
  "amount_group = [plus1 Digit, one (Lit CHR ''.''), Piece Digit 2 (Some 2)]"

definition amount_regex :: regex where
  "amount_regex = Regex
     (lits ''Total'' @ [star Space, one (Lit CHR '':''), star Space])
     amount_group []"

definition subtotal_regex :: regex where
  "subtotal_regex = Regex
     (lits ''Sub'' @ [star Space] @ lits ''Total'' @ [star Space, one (Lit CHR '':''), star Space])
     amount_group []"

definition tax_regex :: regex where
  "tax_regex = Regex
     (lits ''GST'' @ [star Space, one (Lit CHR '':''), star Space])
     amount_group []"

text \<open>
  Python floats are IEEE 754 binary64 numbers. The amounts of this program are never
  negative, so a float here is a finite double, written as the rational number it
  equals, or positive infinity.
\<close>

datatype double = Finite rat | Infinity

definition pow2 :: "int \<Rightarrow> rat" where
  "pow2 e = (if 0 \<le> e then 2 ^ nat e else 1 / 2 ^ nat (- e))"

text \<open>For \<open>a > 0\<close>, the exponent \<open>e\<close> with \<open>2^e \<le> a < 2^(e+1)\<close>.\<close>

definition floor_log2 :: "rat \<Rightarrow> int" where
  "floor_log2 a =
     (let (p, q) = quotient_of a; e0 = bitlen p - bitlen q
      in if pow2 e0 \<le> a then e0 else e0 - 1)"

definition round_half_even :: "rat \<Rightarrow> int" where
  "round_half_even x =
     (let f = \<lfloor>x\<rfloor>; d = x - of_int f
      in if d < 1 / 2 then f else if 1 / 2 < d then f + 1 else if even f then f else f + 1)"

text \<open>
  Rounding to nearest, ties to even, with 53 significant bits and the least exponent
  -1022: the double nearest to a rational, were the exponent unbounded above.
\<close>

definition nearest :: "rat \<Rightarrow> rat" where
  "nearest a =
     (if a = 0 then 0
      else let m = \<bar>a\<bar>; e = max (floor_log2 m) (- 1022); q = pow2 (e - 52)
           in sgn a * (of_int (round_half_even (m / q)) * q))"

text \<open>A result of 2^1024 or more overflows to infinity; \<open>a\<close> is not negative.\<close>

definition to_double :: "rat \<Rightarrow> double" where
  "to_double a =
     (if nearest a = 0 \<or> floor_log2 (nearest a) < 1024 then Finite (nearest a) else Infinity)"

text \<open>
  \<open>float(matches.group(1))\<close> on a string of the shape \<open>\d+\.\d{2}\<close>: the double
  nearest to the decimal number written, which is the digits before the point as a
  number plus the digits after it over the matching power of ten.
\<close>

definition digits_value :: "string \<Rightarrow> nat" where
  "digits_value ds = foldl (\<lambda>n c. 10 * n + (code c - 48)) 0 ds"

definition decimal_value :: "string \<Rightarrow> rat" where
  "decimal_value s =
     (let ip = takeWhile (\<lambda>c. c \<noteq> CHR ''.'') s;
          fp = drop (Suc (length ip)) s
      in of_nat (digits_value ip) + of_nat (digits_value fp) / 10 ^ length fp)"

definition float_of :: "string \<Rightarrow> double" where
  "float_of s = to_double (decimal_value s)"

text \<open>\<open>subtotal + tax\<close> on floats that are not negative.\<close>

fun fadd :: "double \<Rightarrow> double \<Rightarrow> double" where
  "fadd (Finite x) (Finite y) = to_double (x + y)"
| "fadd _ _ = Infinity"

text \<open>
  \<open>np.isclose(a, b, atol=atol)\<close> with the default \<open>rtol = 1e-05\<close>. On two finite
  numbers it is \<open>abs(a - b) <= atol + rtol * abs(b)\<close>, each operation rounded; no
  operation overflows when \<open>a\<close> and \<open>b\<close> are not negative. When one of them is
  infinite it is \<open>a == b\<close>.
\<close>

fun isclose :: "double \<Rightarrow> double \<Rightarrow> rat \<Rightarrow> bool" where
  "isclose (Finite x) (Finite y) atol \<longleftrightarrow>
     \<bar>nearest (x - y)\<bar> \<le> nearest (nearest atol + nearest (nearest (1 / 100000) * \<bar>y\<bar>))"
| "isclose Infinity Infinity atol \<longleftrightarrow> True"
| "isclose _ _ atol \<longleftrightarrow> False"


section \<open>Anomalies\<close>

text \<open>
  An anomaly is a pair of a severity and a message. The severities are the four strings
  the program uses. A message is one constructor per message text of the source, with
  the values its f-string interpolates as arguments:
  \<^item> \<open>Could_not_extract\<close>: "Could not extract text from document"
  \<^item> \<open>Duplicate_detected\<close>: "Duplicate document detected"
  \<^item> \<open>GSTIN_not_found\<close>: "GSTIN not found in document"
  \<^item> \<open>Invalid_GSTIN g\<close>: "Invalid GSTIN format: g"
  \<^item> \<open>Non_standard_rate r\<close>: "Non-standard GST rate: r%"
  \<^item> \<open>Valid_rate r\<close>: "Valid GST rate: r%"
  \<^item> \<open>Rate_not_specified\<close>: "GST rate not specified"
  \<^item> \<open>Total_not_found\<close>: "Total amount not found"
  \<^item> \<open>Calc_mismatch s t total\<close>: "Calculation mismatch: s + t (not equal) total",
    with the three floats the f-string prints
  \<^item> \<open>Calculations_OK\<close>: "Calculations OK"
\<close>

datatype severity = Critical | High | Medium | Low

datatype message =
    Could_not_extract
  | Duplicate_detected
  | GSTIN_not_found
  | Invalid_GSTIN string
  | Non_standard_rate string
  | Valid_rate string
  | Rate_not_specified
  | Total_not_found
  | Calc_mismatch double double double
  | Calculations_OK

type_synonym anomaly = "severity \<times> message"

text \<open>The keys of the dictionary \<open>GST_RATES\<close>.\<close>

definition GST_RATES :: "string list" where
  "GST_RATES = [''0'', ''5'', ''12'', ''18'', ''28'']"

definition validate_gst_rate :: "string \<Rightarrow> bool \<times> message" where
  "validate_gst_rate rate =
     (if rate \<notin> set GST_RATES then (False, Non_standard_rate rate)
      else (True, Valid_rate rate))"

definition check_calculations :: "string \<Rightarrow> bool \<times> message" where
  "check_calculations text =
     (case search True amount_regex text of
        None \<Rightarrow> (False, Total_not_found)
      | Some ms \<Rightarrow>
          (let total = float_of (group1 amount_regex ms);
               subtotal_match = search True subtotal_regex text;
               tax_match = search True tax_regex text
           in case (subtotal_match, tax_match) of
                (Some sm, Some tm) \<Rightarrow>
                  (let subtotal = float_of (group1 subtotal_regex sm);
                       tax = float_of (group1 tax_regex tm);
                       calculated_total = fadd subtotal tax
                   in if \<not> isclose total calculated_total (1 / 100)
                      then (False, Calc_mismatch subtotal tax total)
                      else (True, Calculations_OK))
              | _ \<Rightarrow> (True, Calculations_OK)))"


section \<open>Fingerprint\<close>

type_synonym byte = "8 word"
type_synonym u32 = "32 word"

text \<open>\<open>content.encode()\<close>: UTF-8, one byte below 128 and two bytes from 128 to 255.\<close>

definition encode :: "string \<Rightarrow> byte list" where
  "encode s = concat (map (\<lambda>c. if code c < 128 then [of_nat (code c)]
                                  else [of_nat (192 + code c div 64), of_nat (128 + code c mod 64)]) s)"

text \<open>
  \<open>hashlib.md5\<close>, after RFC 1321: the message is padded with the byte 128, zero bytes up
  to 56 modulo 64 and its length in bits as eight little-endian bytes; each block of 64
  bytes, read as sixteen little-endian words, goes through the 64 steps.
\<close>

definition md5_pad :: "byte list \<Rightarrow> byte list" where
  "md5_pad msg = msg @ [0x80] @ replicate ((119 - length msg mod 64) mod 64) 0
                   @ map (\<lambda>i. of_nat (drop_bit (8 * i) (8 * length msg))) [0 ..< 8]"

fun le_word :: "byte list \<Rightarrow> u32" where
  "le_word [] = 0"
| "le_word (b # bs) = ucast b + push_bit 8 (le_word bs)"

fun chunks :: "nat \<Rightarrow> 'a list \<Rightarrow> 'a list list" where
  "chunks n [] = []"
| "chunks n (x # xs) = (if n = 0 then [] else take n (x # xs) # chunks n (drop n (x # xs)))"

definition md5_K :: "u32 list" where
  "md5_K = [
    0xd76aa478, 0xe8c7b756, 0x242070db, 0xc1bdceee, 0xf57c0faf, 0x4787c62a, 0xa8304613, 0xfd469501,
    0x698098d8, 0x8b44f7af, 0xffff5bb1, 0x895cd7be, 0x6b901122, 0xfd987193, 0xa679438e, 0x49b40821,
    0xf61e2562, 0xc040b340, 0x265e5a51, 0xe9b6c7aa, 0xd62f105d, 0x02441453, 0xd8a1e681, 0xe7d3fbc8,
    0x21e1cde6, 0xc33707d6, 0xf4d50d87, 0x455a14ed, 0xa9e3e905, 0xfcefa3f8, 0x676f02d9, 0x8d2a4c8a,
    0xfffa3942, 0x8771f681, 0x6d9d6122, 0xfde5380c, 0xa4beea44, 0x4bdecfa9, 0xf6bb4b60, 0xbebfbc70,
    0x289b7ec6, 0xeaa127fa, 0xd4ef3085, 0x04881d05, 0xd9d4d039, 0xe6db99e5, 0x1fa27cf8, 0xc4ac5665,
    0xf4292244, 0x432aff97, 0xab9423a7, 0xfc93a039, 0x655b59c3, 0x8f0ccc92, 0xffeff47d, 0x85845dd1,
    0x6fa87e4f, 0xfe2ce6e0, 0xa3014314, 0x4e0811a1, 0xf7537e82, 0xbd3af235, 0x2ad7d2bb, 0xeb86d391]"

definition md5_s :: "nat list" where
  "md5_s = [7, 12, 17, 22, 7, 12, 17, 22, 7, 12, 17, 22, 7, 12, 17, 22,
            5, 9, 14, 20, 5, 9, 14, 20, 5, 9, 14, 20, 5, 9, 14, 20,
            4, 11, 16, 23, 4, 11, 16, 23, 4, 11, 16, 23, 4, 11, 16, 23,
            6, 10, 15, 21, 6, 10, 15, 21, 6, 10, 15, 21, 6, 10, 15, 21]"

definition rotl :: "u32 \<Rightarrow> nat \<Rightarrow> u32" where
  "rotl x n = push_bit n x OR drop_bit (32 - n) x"

type_synonym md5_state = "u32 \<times> u32 \<times> u32 \<times> u32"

fun md5_step :: "u32 list \<Rightarrow> nat \<Rightarrow> md5_state \<Rightarrow> md5_state" where
  "md5_step m i (a, b, c, d) =
     (let (f, g) =
            (if i < 16 then ((b AND c) OR (NOT b AND d), i)
             else if i < 32 then ((d AND b) OR (NOT d AND c), (5 * i + 1) mod 16)
             else if i < 48 then (b XOR c XOR d, (3 * i + 5) mod 16)
             else (c XOR (b OR NOT d), (7 * i) mod 16));
          f' = f + a + md5_K ! i + m ! g
      in (d, b + rotl f' (md5_s ! i), b, c))"

fun md5_block :: "byte list \<Rightarrow> md5_state \<Rightarrow> md5_state" where
  "md5_block blk (a0, b0, c0, d0) =
     (let m = map le_word (chunks 4 blk);
          (a, b, c, d) = fold (md5_step m) [0 ..< 64] (a0, b0, c0, d0)
      in (a0 + a, b0 + b, c0 + c, d0 + d))"

definition le_bytes :: "u32 \<Rightarrow> byte list" where
  "le_bytes w = map (\<lambda>i. ucast (drop_bit (8 * i) w)) [0 ..< 4]"

definition md5_digest :: "byte list \<Rightarrow> byte list" where
  "md5_digest msg =
     (let (a, b, c, d) = fold md5_block (chunks 64 (md5_pad msg))
                           (0x67452301, 0xefcdab89, 0x98badcfe, 0x10325476)
      in le_bytes a @ le_bytes b @ le_bytes c @ le_bytes d)"

text \<open>\<open>hexdigest()\<close>: two lower-case hexadecimal digits per byte.\<close>

definition hex_digit :: "nat \<Rightarrow> char" where
  "hex_digit n = ''0123456789abcdef'' ! n"

definition hexdigest :: "byte list \<Rightarrow> string" where
  "hexdigest bs = concat (map (\<lambda>b. [hex_digit (unat b div 16), hex_digit (unat b mod 16)]) bs)"

text \<open>\<open>calculate_hash(content) = hashlib.md5(content.encode()).hexdigest()\<close>\<close>

definition calculate_hash :: "string \<Rightarrow> string" where
  "calculate_hash content = hexdigest (md5_digest (encode content))"


section \<open>Extraction\<close>

text \<open>
  Text extraction calls libraries outside the program (pdfplumber, PyMuPDF, Tesseract).
  An uploaded file is modelled with what those calls do on it: a loop over pages either
  finishes or raises, in both cases after some pages have produced their text.
  \<^item> \<open>plumber\<close>: the values of \<open>page.extract_text()\<close> (\<open>None\<close> for a page without
    a text layer) read inside \<open>pdfplumber.open\<close>;
  \<^item> \<open>pdf_ocr\<close>: the values of \<open>pytesseract.image_to_string\<close> on the rendered pages;
  \<^item> \<open>image_ocr\<close>: the value of \<open>pytesseract.image_to_string\<close> on the file opened as an
    image, \<open>None\<close> when \<open>Image.open\<close> or the OCR raises;
  \<^item> \<open>stored_at\<close>: the value of \<open>datetime.now()\<close> when the record of the file is stored.
\<close>

datatype 'a run = Finished "'a list" | Raised "'a list"

record uploaded_file =
  file_name :: string
  mime_type :: string
  plumber :: "string option run"
  pdf_ocr :: "string run"
  image_ocr :: "string option"
  stored_at :: nat

text \<open>\<open>text += page.extract_text() or ""\<close> over the pages read.\<close>

definition page_texts :: "string option list \<Rightarrow> string" where
  "page_texts ps = concat (map (\<lambda>p. case p of Some t \<Rightarrow> t | None \<Rightarrow> []) ps)"

text \<open>
  The bare \<open>except\<close> keeps the text gathered so far and goes on with OCR, which appends
  to it; an exception in the OCR path is caught as well and the text gathered is returned.
\<close>

definition extract_text_from_pdf :: "uploaded_file \<Rightarrow> string" where
  "extract_text_from_pdf f =
     (case plumber f of
        Finished ps \<Rightarrow> page_texts ps
      | Raised ps \<Rightarrow>
          page_texts ps @
          (case pdf_ocr f of Finished ts \<Rightarrow> concat ts | Raised ts \<Rightarrow> concat ts))"

definition extract_text_from_image :: "uploaded_file \<Rightarrow> string" where
  "extract_text_from_image f = (case image_ocr f of Some t \<Rightarrow> t | None \<Rightarrow> [])"


section \<open>Rule checks and the session store\<close>

text \<open>One entry of \<open>st.session_state.processed_documents\<close>.\<close>

record document =
  doc_name :: string
  doc_hash :: string
  doc_text :: string
  doc_anomalies :: "anomaly list"
  doc_timestamp :: nat

type_synonym store = "document list"

text \<open>
  \<open>process_document\<close>, with the session store it reads as an argument. The list
  \<open>anomalies\<close> grows by appending; \<open>a0\<close> to \<open>a4\<close> are its successive values.
\<close>

definition process_document :: "store \<Rightarrow> uploaded_file \<Rightarrow> string \<Rightarrow> anomaly list \<times> string" where
  "process_document processed_documents uploaded file_type =
     (let a0 = [];
          text = (if file_type = ''pdf'' then extract_text_from_pdf uploaded
                  else extract_text_from_image uploaded)
      in if text = [] then (a0 @ [(Critical, Could_not_extract)], text)
         else
           let h = calculate_hash text;
               a1 = (if list_ex (\<lambda>doc. doc_hash doc = h) processed_documents
                     then a0 @ [(High, Duplicate_detected)] else a0);
               gstin = extract_gstin text;
               a2 = (case gstin of
                       None \<Rightarrow> a1 @ [(High, GSTIN_not_found)]
                     | Some g \<Rightarrow>
                         if g = [] then a1 @ [(High, GSTIN_not_found)]
                         else if length g \<noteq> 15 then a1 @ [(High, Invalid_GSTIN g)]
                         else a1);
               gst_rate = extract_gst_rate text;
               a3 = (case gst_rate of
                       None \<Rightarrow> a2 @ [(Low, Rate_not_specified)]
                     | Some r \<Rightarrow>
                         if r = [] then a2 @ [(Low, Rate_not_specified)]
                         else (let (is_valid, msg) = validate_gst_rate r
                               in if \<not> is_valid then a2 @ [(Medium, msg)] else a2));
               (calc_ok, calc_msg) = check_calculations text;
               a4 = (if \<not> calc_ok then a3 @ [(High, calc_msg)] else a3)
           in (a4, text))"

text \<open>\<open>uploaded_file.type.split('/')[-1]\<close>: what follows the last slash.\<close>

definition last_segment :: "string \<Rightarrow> string" where
  "last_segment s = rev (takeWhile (\<lambda>c. c \<noteq> CHR ''/'') (rev s))"

definition file_type_of :: "uploaded_file \<Rightarrow> string" where
  "file_type_of f = (if last_segment (mime_type f) = ''pdf'' then ''pdf'' else ''image'')"

text \<open>One turn of the processing loop: process the file, then append its record.\<close>

definition process_one :: "store \<Rightarrow> uploaded_file \<Rightarrow> store" where
  "process_one processed_documents f =
     (let (anomalies, text) = process_document processed_documents f (file_type_of f)
      in processed_documents @
           [\<lparr>doc_name = file_name f, doc_hash = calculate_hash text, doc_text = text,
             doc_anomalies = anomalies, doc_timestamp = stored_at f\<rparr>])"

fun process_loop :: "store \<Rightarrow> uploaded_file list \<Rightarrow> store" where
  "process_loop processed_documents [] = processed_documents"
| "process_loop processed_documents (f # fs) = process_loop (process_one processed_documents f) fs"

text \<open>
  One run of the script: the loop runs when the button "Process Documents" was pressed
  and files are uploaded; the store becomes empty when "Clear All Data" was pressed.
\<close>

definition run_script :: "bool \<Rightarrow> bool \<Rightarrow> uploaded_file list \<Rightarrow> store \<Rightarrow> store" where
  "run_script process_pressed clear_pressed uploaded_files processed_documents =
     (let s1 = (if process_pressed \<and> uploaded_files \<noteq> []
                then process_loop processed_documents uploaded_files
                else processed_documents)
      in if clear_pressed then [] else s1)"

text \<open>
  What each of the four rule checks adds to the anomaly list of a text, read off the
  four blocks of \<open>process_document\<close>.
\<close>

definition duplicate_rule :: "store \<Rightarrow> string \<Rightarrow> anomaly list" where
  "duplicate_rule processed_documents text =
     (if list_ex (\<lambda>doc. doc_hash doc = calculate_hash text) processed_documents
      then [(High, Duplicate_detected)] else [])"

definition gstin_rule :: "string \<Rightarrow> anomaly list" where
  "gstin_rule text =
     (case extract_gstin text of
        None \<Rightarrow> [(High, GSTIN_not_found)]
      | Some g \<Rightarrow>
          if g = [] then [(High, GSTIN_not_found)]
          else if length g \<noteq> 15 then [(High, Invalid_GSTIN g)]
          else [])"

definition gst_rate_rule :: "string \<Rightarrow> anomaly list" where
  "gst_rate_rule text =
     (case extract_gst_rate text of
        None \<Rightarrow> [(Low, Rate_not_specified)]
      | Some r \<Rightarrow>
          if r = [] then [(Low, Rate_not_specified)]
          else if \<not> fst (validate_gst_rate r) then [(Medium, snd (validate_gst_rate r))]
          else [])"

definition calculation_rule :: "string \<Rightarrow> anomaly list" where
  "calculation_rule text =
     (if \<not> fst (check_calculations text) then [(High, snd (check_calculations text))] else [])"

text \<open>The text the extractor yields for a file.\<close>

definition extracted :: "uploaded_file \<Rightarrow> string" where
  "extracted f = (if file_type_of f = ''pdf'' then extract_text_from_pdf f
                  else extract_text_from_image f)"


section \<open>Notions used in the statements\<close>

text \<open>What a match lists for a piece: a string of the class, within the bounds.\<close>

fun piece_ok :: "bool \<Rightarrow> piece \<Rightarrow> string \<Rightarrow> bool" where
  "piece_ok ic (Piece c lo hi) m =
     (lo \<le> length m \<and> (case hi of None \<Rightarrow> True | Some h \<Rightarrow> length m \<le> h) \<and>
      list_all (cls_mem ic c) m)"

text \<open>The record the loop stores for a file, given the store it finds.\<close>

definition entry :: "store \<Rightarrow> uploaded_file \<Rightarrow> document" where
  "entry processed_documents f =
     \<lparr>doc_name = file_name f,
      doc_hash = calculate_hash (snd (process_document processed_documents f (file_type_of f))),
      doc_text = snd (process_document processed_documents f (file_type_of f)),
      doc_anomalies = fst (process_document processed_documents f (file_type_of f)),
      doc_timestamp = stored_at f\<rparr>"

text \<open>The messages of each rule, and the anomalies of a list that carry them.\<close>

fun is_duplicate_msg :: "message \<Rightarrow> bool" where
  "is_duplicate_msg Duplicate_detected = True"
| "is_duplicate_msg _ = False"

fun is_gstin_msg :: "message \<Rightarrow> bool" where
  "is_gstin_msg GSTIN_not_found = True"
| "is_gstin_msg (Invalid_GSTIN g) = True"
| "is_gstin_msg _ = False"

fun is_rate_msg :: "message \<Rightarrow> bool" where
  "is_rate_msg Rate_not_specified = True"
| "is_rate_msg (Non_standard_rate r) = True"
| "is_rate_msg _ = False"

fun is_calc_msg :: "message \<Rightarrow> bool" where
  "is_calc_msg Total_not_found = True"
| "is_calc_msg (Calc_mismatch subtotal tax tot) = True"
| "is_calc_msg _ = False"

definition with_msg :: "(message \<Rightarrow> bool) \<Rightarrow> anomaly list \<Rightarrow> anomaly list" where
  "with_msg P as = filter (\<lambda>a. P (snd a)) as"

text \<open>
  Files for the concrete cases: an image whose OCR yields a given text, and a PDF on which
  both the text-layer extraction and the OCR fallback raise at once.
\<close>

definition image_with :: "string \<Rightarrow> string \<Rightarrow> uploaded_file" where
  "image_with n t =
     \<lparr>file_name = n, mime_type = ''image/png'', plumber = Raised [], pdf_ocr = Raised [],
      image_ocr = Some t, stored_at = 0\<rparr>"

definition failed_pdf :: "string \<Rightarrow> uploaded_file" where
  "failed_pdf n =
     \<lparr>file_name = n, mime_type = ''application/pdf'', plumber = Raised [], pdf_ocr = Raised [],
      image_ocr = None, stored_at = 0\<rparr>"

text \<open>The three lines of the calculation example, one per line.\<close>

definition invoice_lines :: string where
  "invoice_lines = ''Sub Total : 100.00'' @ [CHR 0x0A] @ ''GST : 18.00'' @ [CHR 0x0A] @ ''Total : 118.00''"


section \<open>Properties of the matcher and the parsers\<close>

lemma first_some_map:
  "first_some (map f xs) = Some y \<Longrightarrow> \<exists>x\<in>set xs. f x = Some y"
  by (induction xs) (auto split: option.splits)

lemma take_takeWhile_all:
  "n \<le> length (takeWhile P s) \<Longrightarrow> list_all P (take n s)"
proof -
  assume n: "n \<le> length (takeWhile P s)"
  have "take n (takeWhile P s @ dropWhile P s) = take n (takeWhile P s)"
    using n by (simp del: takeWhile_dropWhile_id)
  then have "take n s = take n (takeWhile P s)" by simp
  then have "set (take n s) \<subseteq> set (takeWhile P s)" by (metis set_take_subset)
  then show ?thesis by (auto simp: list_all_iff dest: set_takeWhileD)
qed

lemma match_here_shape:
  "match_here ic ps s = Some ms \<Longrightarrow> list_all2 (piece_ok ic) ps ms"
proof (induction ps arbitrary: s ms)
  case Nil
  then show ?case by simp
next
  case (Cons p ps)
  obtain c lo hi where p: "p = Piece c lo hi" by (cases p)
  define avail where "avail = length (takeWhile (cls_mem ic c) s)"
  define top where "top = (case hi of None \<Rightarrow> avail | Some h \<Rightarrow> min h avail)"
  from Cons.prems p have
    "first_some (map (\<lambda>n. map_option ((#) (take n s)) (match_here ic ps (drop n s)))
                     (rev [lo ..< Suc top])) = Some ms"
    by (simp only: p match_here.simps Let_def avail_def top_def)
  then obtain n where n: "n \<in> set (rev [lo ..< Suc top])"
    and m: "map_option ((#) (take n s)) (match_here ic ps (drop n s)) = Some ms"
    by (blast dest: first_some_map)
  from m obtain ms' where ms': "match_here ic ps (drop n s) = Some ms'" "ms = take n s # ms'"
    by auto
  from n have lo: "lo \<le> n" and ntop: "n \<le> top" by auto
  have navail: "n \<le> avail" using ntop by (auto simp: top_def split: option.splits)
  have len: "length (take n s) = n"
    using navail length_takeWhile_le [of "cls_mem ic c" s] by (simp add: avail_def)
  have hi: "(case hi of None \<Rightarrow> True | Some h \<Rightarrow> n \<le> h)"
    using ntop by (auto simp: top_def split: option.splits)
  have "list_all (cls_mem ic c) (take n s)"
    using navail by (simp add: avail_def take_takeWhile_all)
  with lo hi len have "piece_ok ic p (take n s)" by (auto simp: p split: option.splits)
  moreover have "list_all2 (piece_ok ic) ps ms'" using Cons.IH ms'(1) by blast
  ultimately show ?case by (simp add: ms'(2))
qed

lemma search_match:
  "search ic r s = Some ms \<Longrightarrow> \<exists>t. match_here ic (pieces r) t = Some ms"
  by (induction s) (auto split: option.splits)

lemma findall_match:
  "m \<in> set (findall ic r s) \<Longrightarrow> \<exists>t ms. match_here ic (pieces r) t = Some ms \<and> m = concat ms"
proof (induction ic r s rule: findall.induct)
  case (1 ic r s)
  show ?case
  proof (cases "match_here ic (pieces r) s")
    case None
    have "findall ic r s = (if s = [] then [] else findall ic r (tl s))"
      using None by (subst findall.simps) simp
    with "1.prems" have "s \<noteq> []" "m \<in> set (findall ic r (tl s))"
      by (auto split: if_splits)
    then show ?thesis using "1.IH"(1) None by blast
  next
    case (Some ms)
    have "findall ic r s =
            (if s = [] then [group0 ms]
             else group0 ms # findall ic r (drop (max 1 (length (group0 ms))) s))"
      using Some by (subst findall.simps) simp
    with "1.prems" consider "m = concat ms"
      | "s \<noteq> []" "m \<in> set (findall ic r (drop (max 1 (length (group0 ms))) s))"
      by (auto split: if_splits)
    then show ?thesis
    proof cases
      case 1
      with Some show ?thesis by blast
    next
      case 2
      then show ?thesis using "1.IH"(2) Some by blast
    qed
  qed
qed

lemma gstin_length:
  assumes "extract_gstin text = Some g" shows "length g = 15"
proof -
  from assms have "g \<in> set (findall False gstin_regex (str_upper text))"
    by (auto simp: extract_gstin_def split: list.splits)
  then obtain t ms where ms: "match_here False (pieces gstin_regex) t = Some ms" "g = concat ms"
    by (blast dest: findall_match)
  from match_here_shape [OF ms(1)] obtain m1 m2 m3 m4 m5 m6 m7 where
    "ms = [m1, m2, m3, m4, m5, m6, m7]"
    "length m1 = 2" "length m2 = 5" "length m3 = 4" "length m4 = 1" "length m5 = 1"
    "length m6 = 1" "length m7 = 1"
    by (auto simp: gstin_regex_def list_all2_Cons1)
  then show ?thesis by (simp add: ms(2))
qed

lemma rate_nonempty:
  assumes "extract_gst_rate text = Some r" shows "r \<noteq> []"
proof -
  from assms obtain ms where s: "search True rate_regex text = Some ms" and r: "r = group1 rate_regex ms"
    by (auto simp: extract_gst_rate_def split: option.splits)
  from search_match [OF s] obtain t where "match_here True (pieces rate_regex) t = Some ms" by blast
  from match_here_shape [OF this] obtain m1 m2 m3 m4 m5 m6 m7 m8 where
    "ms = [m1, m2, m3, m4, m5, m6, m7, m8]" "1 \<le> length m7"
    by (auto simp: rate_regex_def list_all2_Cons1)
  then show ?thesis using r by (auto simp: rate_regex_def)
qed


section \<open>Properties of the rule checks and the store\<close>

lemma file_type_of_cases: "file_type_of f = ''pdf'' \<or> file_type_of f = ''image''"
  by (simp add: file_type_of_def)

lemma process_document_text: "snd (process_document s f (file_type_of f)) = extracted f"
  by (simp add: process_document_def extracted_def Let_def case_prod_beta)

lemma process_document_empty:
  "extracted f = [] \<Longrightarrow> fst (process_document s f (file_type_of f)) = [(Critical, Could_not_extract)]"
  by (simp add: process_document_def extracted_def Let_def)

lemma process_document_rules:
  "extracted f \<noteq> [] \<Longrightarrow>
   fst (process_document s f (file_type_of f)) =
     duplicate_rule s (extracted f) @ gstin_rule (extracted f) @
     gst_rate_rule (extracted f) @ calculation_rule (extracted f)"
  by (simp add: process_document_def extracted_def duplicate_rule_def gstin_rule_def
      gst_rate_rule_def calculation_rule_def Let_def case_prod_beta split: option.splits)

lemma process_one_entry: "process_one s f = s @ [entry s f]"
  by (simp add: process_one_def entry_def case_prod_beta)

lemma entry_text: "doc_text (entry s f) = extracted f"
  by (simp add: entry_def process_document_text)

lemma entry_hash: "doc_hash (entry s f) = calculate_hash (extracted f)"
  by (simp add: entry_def process_document_text)


lemma entry_anomalies_empty:
  "extracted f = [] \<Longrightarrow> doc_anomalies (entry s f) = [(Critical, Could_not_extract)]"
  by (simp add: entry_def process_document_empty)

lemma entry_anomalies_rules:
  "extracted f \<noteq> [] \<Longrightarrow>
   doc_anomalies (entry s f) =
     duplicate_rule s (extracted f) @ gstin_rule (extracted f) @
     gst_rate_rule (extracted f) @ calculation_rule (extracted f)"
  by (simp add: entry_def process_document_rules)

lemma process_loop_append: "process_loop s (xs @ ys) = process_loop (process_loop s xs) ys"
  by (induction xs arbitrary: s) simp_all

lemma process_loop_extends: "\<exists>new. process_loop s fs = s @ new \<and> length new = length fs"
proof (induction fs arbitrary: s)
  case Nil
  then show ?case by simp
next
  case (Cons f fs)
  from Cons.IH [of "process_one s f"] obtain new where
    "process_loop (process_one s f) fs = process_one s f @ new" "length new = length fs" by blast
  then have "process_loop s (f # fs) = s @ (entry s f # new) \<and> length (entry s f # new) = length (f # fs)"
    by (simp add: process_one_entry)
  then show ?case by blast
qed

lemma length_process_loop: "length (process_loop s fs) = length s + length fs"
  using process_loop_extends [of s fs] by auto

lemma process_loop_old: "i < length s \<Longrightarrow> process_loop s fs ! i = s ! i"
  using process_loop_extends [of s fs] by (auto simp: nth_append)

lemma process_loop_nth:
  assumes "i < length fs"
  shows "process_loop s fs ! (length s + i) = entry (process_loop s (take i fs)) (fs ! i)"
proof -
  define s1 where "s1 = process_loop s (take i fs)"
  have len: "length s1 = length s + i"
    using assms by (simp add: s1_def length_process_loop)
  have "fs = take i fs @ (fs ! i # drop (Suc i) fs)"
    using assms by (simp add: id_take_nth_drop)
  then have "process_loop s fs = process_loop (process_one s1 (fs ! i)) (drop (Suc i) fs)"
    by (metis process_loop_append process_loop.simps(2) s1_def)
  moreover obtain new where
    "process_loop (process_one s1 (fs ! i)) (drop (Suc i) fs) = process_one s1 (fs ! i) @ new"
    using process_loop_extends by blast
  ultimately have "process_loop s fs = s1 @ entry s1 (fs ! i) # new"
    by (simp add: process_one_entry)
  then show ?thesis using len by (simp add: nth_append s1_def)
qed

lemma with_msg_append: "with_msg P (xs @ ys) = with_msg P xs @ with_msg P ys"
  by (simp add: with_msg_def)

lemma check_calculations_msg:
  "\<not> fst (check_calculations t) \<Longrightarrow> is_calc_msg (snd (check_calculations t))"
  by (auto simp: check_calculations_def Let_def split: option.splits if_splits)


lemma extracted_image_with: "extracted (image_with n t) = t"
  by (simp add: extracted_def file_type_of_def last_segment_def image_with_def
      extract_text_from_image_def)

lemma extracted_failed_pdf: "extracted (failed_pdf n) = []"
  by (simp add: extracted_def file_type_of_def last_segment_def failed_pdf_def
      extract_text_from_pdf_def page_texts_def)

lemma gstin_rule_value:
  "gstin_rule t = (if extract_gstin t = None then [(High, GSTIN_not_found)] else [])"
proof (cases "extract_gstin t")
  case None
  then show ?thesis by (simp add: gstin_rule_def)
next
  case (Some g)
  then have "length g = 15" by (rule gstin_length)
  with Some show ?thesis by (auto simp: gstin_rule_def)
qed

lemma gst_rate_rule_value:
  "gst_rate_rule t =
     (case extract_gst_rate t of
        None \<Rightarrow> [(Low, Rate_not_specified)]
      | Some r \<Rightarrow> if r \<in> set GST_RATES then [] else [(Medium, Non_standard_rate r)])"
proof (cases "extract_gst_rate t")
  case None
  then show ?thesis by (simp add: gst_rate_rule_def)
next
  case (Some r)
  then have "r \<noteq> []" by (rule rate_nonempty)
  with Some show ?thesis by (simp add: gst_rate_rule_def validate_gst_rate_def)
qed

lemma with_msg_Nil: "with_msg P [] = []"
  by (simp add: with_msg_def)

lemma with_msg_Cons:
  "with_msg P (a # as) = (if P (snd a) then a # with_msg P as else with_msg P as)"
  by (simp add: with_msg_def)

lemma with_msg_mem: "a \<in> set as \<Longrightarrow> P (snd a) \<Longrightarrow> a \<in> set (with_msg P as)"
  unfolding with_msg_def by auto

lemma with_msg_duplicate_rule:
  "with_msg is_duplicate_msg (duplicate_rule s t) = duplicate_rule s t"
  "with_msg is_gstin_msg (duplicate_rule s t) = []"
  "with_msg is_rate_msg (duplicate_rule s t) = []"
  "with_msg is_calc_msg (duplicate_rule s t) = []"
  by (simp_all add: with_msg_def duplicate_rule_def)

lemma with_msg_gstin_rule:
  "with_msg is_duplicate_msg (gstin_rule t) = []"
  "with_msg is_gstin_msg (gstin_rule t) = gstin_rule t"
  "with_msg is_rate_msg (gstin_rule t) = []"
  "with_msg is_calc_msg (gstin_rule t) = []"
  by (simp_all add: with_msg_def gstin_rule_value)

lemma with_msg_gst_rate_rule:
  "with_msg is_duplicate_msg (gst_rate_rule t) = []"
  "with_msg is_gstin_msg (gst_rate_rule t) = []"
  "with_msg is_rate_msg (gst_rate_rule t) = gst_rate_rule t"
  "with_msg is_calc_msg (gst_rate_rule t) = []"
  by (simp_all add: with_msg_def gst_rate_rule_value split: option.splits)

lemma calc_msg_only:
  "is_calc_msg m \<Longrightarrow> \<not> is_duplicate_msg m \<and> \<not> is_gstin_msg m \<and> \<not> is_rate_msg m"
  by (cases m) simp_all

lemma calculation_rule_cases:
  "calculation_rule t = [] \<or> (\<exists>m. is_calc_msg m \<and> calculation_rule t = [(High, m)])"
  using check_calculations_msg [of t] by (simp add: calculation_rule_def)

lemma with_msg_calculation_rule:
  "with_msg is_duplicate_msg (calculation_rule t) = []"
  "with_msg is_gstin_msg (calculation_rule t) = []"
  "with_msg is_rate_msg (calculation_rule t) = []"
  "with_msg is_calc_msg (calculation_rule t) = calculation_rule t"
proof -
  from calculation_rule_cases [of t] consider "calculation_rule t = []"
    | m where "is_calc_msg m" "calculation_rule t = [(High, m)]" by blast
  then have "with_msg is_duplicate_msg (calculation_rule t) = [] \<and>
             with_msg is_gstin_msg (calculation_rule t) = [] \<and>
             with_msg is_rate_msg (calculation_rule t) = [] \<and>
             with_msg is_calc_msg (calculation_rule t) = calculation_rule t"
  proof cases
    case 1
    then show ?thesis by (simp add: with_msg_def)
  next
    case 2
    from calc_msg_only [OF 2(1)] 2 show ?thesis by (simp add: with_msg_def)
  qed
  then show "with_msg is_duplicate_msg (calculation_rule t) = []"
    "with_msg is_gstin_msg (calculation_rule t) = []"
    "with_msg is_rate_msg (calculation_rule t) = []"
    "with_msg is_calc_msg (calculation_rule t) = calculation_rule t"
    by blast+
qed

lemmas with_msg_rules = with_msg_Nil with_msg_Cons with_msg_append with_msg_duplicate_rule with_msg_gstin_rule
  with_msg_gst_rate_rule with_msg_calculation_rule

lemma entry_no_invalid_gstin: "(sev, Invalid_GSTIN g) \<notin> set (doc_anomalies (entry s f))"
proof (cases "extracted f = []")
  case True
  then show ?thesis by (simp add: entry_anomalies_empty)
next
  case False
  have "with_msg is_gstin_msg (doc_anomalies (entry s f)) = gstin_rule (extracted f)"
    using False by (simp add: entry_anomalies_rules with_msg_rules)
  moreover have "(sev, Invalid_GSTIN g) \<notin> set (gstin_rule (extracted f))"
    by (simp add: gstin_rule_value)
  ultimately show ?thesis using with_msg_mem [of "(sev, Invalid_GSTIN g)" _ is_gstin_msg]
    by fastforce
qed

lemma process_loop_members:
  "d \<in> set (process_loop s fs) \<Longrightarrow> d \<in> set s \<or> (\<exists>s' f. d = entry s' f)"
proof (induction fs arbitrary: s)
  case Nil
  then show ?case by simp
next
  case (Cons f fs)
  from Cons.prems have "d \<in> set (process_loop (s @ [entry s f]) fs)"
    by (simp add: process_one_entry)
  from Cons.IH [OF this] show ?case by auto
qed


section \<open>The claims\<close>

text \<open>
  C9. Whatever the text, a GSTIN that \<open>extract_gstin\<close> returns has exactly 15
  characters, so the branch of \<open>process_document\<close> for a length other than 15 is never
  taken: no document stored by the processing loop carries an "Invalid GSTIN format"
  anomaly, of any severity and for any value.
\<close>

theorem invalid_gstin_branch_unreachable:
  "(extract_gstin text = Some g \<longrightarrow> length g = 15) \<and>
   (\<forall>d \<in> set (process_loop [] fs). \<forall>sev g'. (sev, Invalid_GSTIN g') \<notin> set (doc_anomalies d))"
proof
  show "extract_gstin text = Some g \<longrightarrow> length g = 15" by (simp add: gstin_length)
  show "\<forall>d \<in> set (process_loop [] fs). \<forall>sev g'. (sev, Invalid_GSTIN g') \<notin> set (doc_anomalies d)"
  proof (intro ballI allI)
    fix d sev g'
    assume "d \<in> set (process_loop [] fs)"
    then obtain s' f where "d = entry s' f" using process_loop_members by fastforce
    then show "(sev, Invalid_GSTIN g') \<notin> set (doc_anomalies d)"
      by (simp add: entry_no_invalid_gstin)
  qed
qed

text \<open>A text on which \<open>extract_gstin\<close> returns a value.\<close>

lemma gstin_valid_example: "extract_gstin ''27AAAPL1234C1Z5'' = Some ''27AAAPL1234C1Z5''"
  by code_simp

theorem invalid_gstin_branch_unreachable_witness:
  "extract_gstin ''27AAAPL1234C1Z5'' = Some ''27AAAPL1234C1Z5'' \<and>
   length ''27AAAPL1234C1Z5'' = 15 \<and>
   (\<forall>sev g'. (sev, Invalid_GSTIN g') \<notin>
      set (doc_anomalies (hd (process_loop [] [image_with ''a.png'' ''27AAAPL1234C1Z5'']))))"
proof -
  let ?f = "image_with ''a.png'' ''27AAAPL1234C1Z5''"
  have "hd (process_loop [] [?f]) \<in> set (process_loop [] [?f])"
    by (simp add: process_one_entry)
  with invalid_gstin_branch_unreachable
    [of "''27AAAPL1234C1Z5''" "''27AAAPL1234C1Z5''" "[?f]"] gstin_valid_example
  show ?thesis by blast
qed

lemma gstin_near_miss: "extract_gstin ''27AAAPL1234C1Z'' = None"
  by code_simp

text \<open>
  C3. On the text that consists of the 14-character near-miss \<open>27AAAPL1234C1Z\<close> the
  pattern of \<open>extract_gstin\<close>, which needs 15 characters, finds nothing. The document
  gets one GSTIN anomaly, High "GSTIN not found in document"; the anomaly High "Invalid
  GSTIN format: 27AAAPL1234C1Z", which the length check of \<open>process_document\<close> is
  there to report, is not among its anomalies.
\<close>

theorem near_miss_reported_not_found:
  "with_msg is_gstin_msg
     (fst (process_document [] (image_with ''a.png'' ''27AAAPL1234C1Z'')
            (file_type_of (image_with ''a.png'' ''27AAAPL1234C1Z'')))) =
   [(High, GSTIN_not_found)] \<and>
   (High, Invalid_GSTIN ''27AAAPL1234C1Z'') \<notin>
     set (fst (process_document [] (image_with ''a.png'' ''27AAAPL1234C1Z'')
                (file_type_of (image_with ''a.png'' ''27AAAPL1234C1Z''))))"
proof -
  let ?f = "image_with ''a.png'' ''27AAAPL1234C1Z''"
  have t: "extracted ?f = ''27AAAPL1234C1Z''" by (rule extracted_image_with)
  then have ne: "extracted ?f \<noteq> []" by simp
  have g: "with_msg is_gstin_msg (fst (process_document [] ?f (file_type_of ?f))) =
        [(High, GSTIN_not_found)]"
    by (simp add: process_document_rules [OF ne] with_msg_rules gstin_rule_value t gstin_near_miss)
  have "(High, Invalid_GSTIN ''27AAAPL1234C1Z'') \<notin>
          set (with_msg is_gstin_msg (fst (process_document [] ?f (file_type_of ?f))))"
    by (simp only: g) simp
  then have "(High, Invalid_GSTIN ''27AAAPL1234C1Z'') \<notin>
          set (fst (process_document [] ?f (file_type_of ?f)))"
    by (simp add: with_msg_def)
  with g show ?thesis by blast
qed

lemma gstin_empty_text: "extract_gstin [] = None"
  by code_simp

lemma rate_empty_text: "extract_gst_rate [] = None"
  by code_simp

lemma calculations_empty_text: "check_calculations [] = (False, Total_not_found)"
  by code_simp

text \<open>
  C1, as stated, fails when extraction produced empty text: \<open>process_document\<close> returns
  before the rule checks. On a PDF whose extraction fails, the anomaly list is the single
  Critical entry, while the GSTIN, GST rate and calculation rules would each have added an
  anomaly for the empty text.
\<close>

theorem rules_skipped_counterexample:
  "fst (process_document [] (failed_pdf ''a.pdf'') (file_type_of (failed_pdf ''a.pdf''))) =
     [(Critical, Could_not_extract)] \<and>
   gstin_rule (extracted (failed_pdf ''a.pdf'')) = [(High, GSTIN_not_found)] \<and>
   gst_rate_rule (extracted (failed_pdf ''a.pdf'')) = [(Low, Rate_not_specified)] \<and>
   calculation_rule (extracted (failed_pdf ''a.pdf'')) = [(High, Total_not_found)]"
  by (simp add: process_document_empty extracted_failed_pdf gstin_rule_value gstin_empty_text
      gst_rate_rule_value rate_empty_text calculation_rule_def calculations_empty_text)

text \<open>
  C1, amended. For every processed document whose extracted text is not empty, all four
  rule checks are evaluated and none short-circuits another: the anomaly list is what the
  duplicate, GSTIN, GST rate and calculation rules contribute, in that order. When
  extraction produced empty text, no rule check is evaluated and the list is the single
  Critical extraction anomaly.
\<close>

theorem all_rules_contribute:
  "(extracted f \<noteq> [] \<longrightarrow>
      fst (process_document s f (file_type_of f)) =
        duplicate_rule s (extracted f) @ gstin_rule (extracted f) @
        gst_rate_rule (extracted f) @ calculation_rule (extracted f)) \<and>
   (extracted f = [] \<longrightarrow>
      fst (process_document s f (file_type_of f)) = [(Critical, Could_not_extract)])"
  by (simp add: process_document_rules process_document_empty)

theorem all_rules_contribute_witness:
  "fst (process_document [] (image_with ''a.png'' ''x'') (file_type_of (image_with ''a.png'' ''x''))) =
     duplicate_rule [] ''x'' @ gstin_rule ''x'' @ gst_rate_rule ''x'' @ calculation_rule ''x'' \<and>
   fst (process_document [] (failed_pdf ''a.pdf'') (file_type_of (failed_pdf ''a.pdf''))) =
     [(Critical, Could_not_extract)]"
proof -
  have h1: "extracted (image_with ''a.png'' ''x'') \<noteq> []" by (simp add: extracted_image_with)
  have h2: "extracted (failed_pdf ''a.pdf'') = []" by (rule extracted_failed_pdf)
  from all_rules_contribute [of "image_with ''a.png'' ''x''" "[]"] h1
  have "fst (process_document [] (image_with ''a.png'' ''x'') (file_type_of (image_with ''a.png'' ''x''))) =
     duplicate_rule [] ''x'' @ gstin_rule ''x'' @ gst_rate_rule ''x'' @ calculation_rule ''x''"
    by (simp only: extracted_image_with) blast
  moreover from all_rules_contribute [of "failed_pdf ''a.pdf''" "[]"] h2
  have "fst (process_document [] (failed_pdf ''a.pdf'') (file_type_of (failed_pdf ''a.pdf''))) =
     [(Critical, Could_not_extract)]" by blast
  ultimately show ?thesis by blast
qed

lemma invoice_lines_check: "check_calculations invoice_lines = (False, Calc_mismatch (Finite 100) (Finite 18) (Finite 100))"
  by code_simp

lemma invoice_lines_nonempty: "invoice_lines \<noteq> []"
  by (simp add: invoice_lines_def)

text \<open>
  C2. On the text made of the three lines \<open>Sub Total : 100.00\<close>, \<open>GST : 18.00\<close> and
  \<open>Total : 118.00\<close>, the search for the total finds \<open>Total : 100.00\<close> inside the first
  line, so the check compares 100 + 18 with 100, fails, and the document gets the High
  anomaly "Calculation mismatch" with subtotal 100, tax 18 and total 100.
\<close>

theorem calculation_example_mismatch:
  "check_calculations invoice_lines = (False, Calc_mismatch (Finite 100) (Finite 18) (Finite 100)) \<and>
   with_msg is_calc_msg
     (fst (process_document [] (image_with ''a.png'' invoice_lines)
            (file_type_of (image_with ''a.png'' invoice_lines)))) =
   [(High, Calc_mismatch (Finite 100) (Finite 18) (Finite 100))]"
proof -
  let ?f = "image_with ''a.png'' invoice_lines"
  have ne: "extracted ?f \<noteq> []" by (simp add: extracted_image_with invoice_lines_nonempty)
  have "with_msg is_calc_msg (fst (process_document [] ?f (file_type_of ?f))) =
          calculation_rule invoice_lines"
    by (simp add: process_document_rules [OF ne] with_msg_append with_msg_duplicate_rule
        with_msg_gstin_rule with_msg_gst_rate_rule with_msg_calculation_rule extracted_image_with)
  also have "\<dots> = [(High, Calc_mismatch (Finite 100) (Finite 18) (Finite 100))]"
    by (simp add: calculation_rule_def invoice_lines_check)
  finally show ?thesis by (simp add: invoice_lines_check)
qed

lemma rate_example_none: "extract_gst_rate ''Invoice 42'' = None"
  by code_simp

lemma rate_example_15: "extract_gst_rate ''GST @15%'' = Some ''15''"
  by code_simp

lemma rate_example_18: "extract_gst_rate ''GST @18%'' = Some ''18''"
  by code_simp

lemma rate_anomalies:
  "extracted f \<noteq> [] \<Longrightarrow>
   with_msg is_rate_msg (fst (process_document s f (file_type_of f))) =
     gst_rate_rule (extracted f)"
  by (simp add: process_document_rules with_msg_append with_msg_duplicate_rule
      with_msg_gstin_rule with_msg_gst_rate_rule with_msg_calculation_rule)

text \<open>
  C7. For any non-empty text: if the rate pattern finds nothing, the document gets the Low
  anomaly "GST rate not specified"; if it captures a digit string that is not a key of
  \<open>GST_RATES\<close> (0, 5, 12, 18, 28), the Medium anomaly "Non-standard GST rate" with that
  string; if the string is a key, no rate anomaly. In each case this is all the rate rule
  adds.
\<close>

theorem gst_rate_rule_cases:
  assumes "extracted f \<noteq> []"
  shows "(extract_gst_rate (extracted f) = None \<longrightarrow>
            with_msg is_rate_msg (fst (process_document s f (file_type_of f))) =
              [(Low, Rate_not_specified)]) \<and>
         (\<forall>r. extract_gst_rate (extracted f) = Some r \<and> r \<notin> set GST_RATES \<longrightarrow>
            with_msg is_rate_msg (fst (process_document s f (file_type_of f))) =
              [(Medium, Non_standard_rate r)]) \<and>
         (\<forall>r. extract_gst_rate (extracted f) = Some r \<and> r \<in> set GST_RATES \<longrightarrow>
            with_msg is_rate_msg (fst (process_document s f (file_type_of f))) = [])"
  by (simp add: rate_anomalies [OF assms] gst_rate_rule_value)

theorem gst_rate_rule_cases_witness:
  "with_msg is_rate_msg
     (fst (process_document [] (image_with ''a.png'' ''Invoice 42'')
            (file_type_of (image_with ''a.png'' ''Invoice 42'')))) = [(Low, Rate_not_specified)] \<and>
   with_msg is_rate_msg
     (fst (process_document [] (image_with ''a.png'' ''GST @15%'')
            (file_type_of (image_with ''a.png'' ''GST @15%'')))) = [(Medium, Non_standard_rate ''15'')] \<and>
   with_msg is_rate_msg
     (fst (process_document [] (image_with ''a.png'' ''GST @18%'')
            (file_type_of (image_with ''a.png'' ''GST @18%'')))) = []"
proof -
  have n1: "extracted (image_with ''a.png'' ''Invoice 42'') \<noteq> []"
    and n2: "extracted (image_with ''a.png'' ''GST @15%'') \<noteq> []"
    and n3: "extracted (image_with ''a.png'' ''GST @18%'') \<noteq> []"
    by (simp_all add: extracted_image_with)
  have r1: "extract_gst_rate (extracted (image_with ''a.png'' ''Invoice 42'')) = None"
    by (simp only: extracted_image_with rate_example_none)
  have r2: "extract_gst_rate (extracted (image_with ''a.png'' ''GST @15%'')) = Some ''15''"
    by (simp only: extracted_image_with rate_example_15)
  have r3: "extract_gst_rate (extracted (image_with ''a.png'' ''GST @18%'')) = Some ''18''"
    by (simp only: extracted_image_with rate_example_18)
  have k2: "''15'' \<notin> set GST_RATES" and k3: "''18'' \<in> set GST_RATES"
    by (simp_all add: GST_RATES_def)
  from gst_rate_rule_cases [OF n1, of "[]"] r1
  have c1: "with_msg is_rate_msg
     (fst (process_document [] (image_with ''a.png'' ''Invoice 42'')
            (file_type_of (image_with ''a.png'' ''Invoice 42'')))) = [(Low, Rate_not_specified)]"
    by blast
  from gst_rate_rule_cases [OF n2, of "[]"] r2 k2
  have c2: "with_msg is_rate_msg
     (fst (process_document [] (image_with ''a.png'' ''GST @15%'')
            (file_type_of (image_with ''a.png'' ''GST @15%'')))) = [(Medium, Non_standard_rate ''15'')]"
    by blast
  from gst_rate_rule_cases [OF n3, of "[]"] r3 k3
  have c3: "with_msg is_rate_msg
     (fst (process_document [] (image_with ''a.png'' ''GST @18%'')
            (file_type_of (image_with ''a.png'' ''GST @18%'')))) = []"
    by blast
  from c1 c2 c3 show ?thesis by blast
qed


lemma duplicate_anomalies:
  "extracted f \<noteq> [] \<Longrightarrow>
   with_msg is_duplicate_msg (doc_anomalies (entry s f)) = duplicate_rule s (extracted f)"
  by (simp add: entry_anomalies_rules with_msg_append with_msg_duplicate_rule
      with_msg_gstin_rule with_msg_gst_rate_rule with_msg_calculation_rule)

lemma last_process_one: "last (process_one s f) = entry s f"
  by (simp add: process_one_entry)

lemma process_loop_nth_hash:
  "i < length fs \<Longrightarrow>
   doc_hash (process_loop s fs ! (length s + i)) = calculate_hash (extracted (fs ! i))"
  by (simp add: process_loop_nth entry_hash)



lemma process_loop_nth_empty:
  "i < length fs \<Longrightarrow> extracted (fs ! i) = [] \<Longrightarrow>
   doc_anomalies (process_loop s fs ! (length s + i)) = [(Critical, Could_not_extract)]"
  by (simp add: process_loop_nth entry_anomalies_empty)








lemma entry_hash_of_text: "doc_hash (entry s f) = calculate_hash (doc_text (entry s f))"
  by (simp add: entry_hash entry_text)

text \<open>
  C6. The content hash is a function of the text alone: equal texts have equal hashes, two
  files of a batch with the same extracted text are stored with the same hash, and when
  every stored record has the hash of its text, so has every record after the loop has run.
\<close>

theorem content_hash_of_text:
  "(t1 = t2 \<longrightarrow> calculate_hash t1 = calculate_hash t2) \<and>
   (\<forall>i j. i < length fs \<and> j < length fs \<and> extracted (fs ! i) = extracted (fs ! j) \<longrightarrow>
      doc_hash (process_loop s fs ! (length s + i)) =
      doc_hash (process_loop s fs ! (length s + j))) \<and>
   ((\<forall>d \<in> set s. doc_hash d = calculate_hash (doc_text d)) \<longrightarrow>
    (\<forall>d \<in> set (process_loop s fs). doc_hash d = calculate_hash (doc_text d)))"
proof (intro conjI allI impI ballI)
  fix i j
  assume "i < length fs \<and> j < length fs \<and> extracted (fs ! i) = extracted (fs ! j)"
  then show "doc_hash (process_loop s fs ! (length s + i)) =
      doc_hash (process_loop s fs ! (length s + j))"
    by (simp add: process_loop_nth_hash)
next
  fix d
  assume inv: "\<forall>d \<in> set s. doc_hash d = calculate_hash (doc_text d)"
    and d: "d \<in> set (process_loop s fs)"
  from process_loop_members [OF d] show "doc_hash d = calculate_hash (doc_text d)"
    using inv entry_hash_of_text by blast
qed simp

theorem content_hash_of_text_witness:
  "calculate_hash ''x'' = calculate_hash ''x'' \<and>
   doc_hash (process_loop [] [image_with ''a.png'' ''x'', image_with ''b.png'' ''x''] ! 0) =
   doc_hash (process_loop [] [image_with ''a.png'' ''x'', image_with ''b.png'' ''x''] ! 1) \<and>
   doc_hash (hd (process_loop [] [image_with ''a.png'' ''x'', image_with ''b.png'' ''x''])) =
   calculate_hash
     (doc_text (hd (process_loop [] [image_with ''a.png'' ''x'', image_with ''b.png'' ''x''])))"
proof -
  let ?fs = "[image_with ''a.png'' ''x'', image_with ''b.png'' ''x'']"
  note inst = content_hash_of_text [of "''x''" "''x''" ?fs "[]"]
  have e: "(0::nat) < length ?fs \<and> (1::nat) < length ?fs \<and> extracted (?fs ! 0) = extracted (?fs ! 1)"
    by (simp add: extracted_image_with)
  from inst have "\<forall>i j. i < length ?fs \<and> j < length ?fs \<and> extracted (?fs ! i) = extracted (?fs ! j) \<longrightarrow>
      doc_hash (process_loop [] ?fs ! (length ([]::store) + i)) =
      doc_hash (process_loop [] ?fs ! (length ([]::store) + j))" by blast
  with e have "doc_hash (process_loop [] ?fs ! (length ([]::store) + 0)) =
      doc_hash (process_loop [] ?fs ! (length ([]::store) + 1))" by blast
  then have a: "doc_hash (process_loop [] ?fs ! 0) = doc_hash (process_loop [] ?fs ! 1)"
    by (simp del: process_loop.simps)
  have "process_loop [] ?fs \<noteq> []"
    using length_process_loop [of "[]" ?fs] by (auto simp del: process_loop.simps)
  then have m: "hd (process_loop [] ?fs) \<in> set (process_loop [] ?fs)" by (rule hd_in_set)
  have "\<forall>d \<in> set ([]::store). doc_hash d = calculate_hash (doc_text d)" by simp
  with inst m have b: "doc_hash (hd (process_loop [] ?fs)) =
      calculate_hash (doc_text (hd (process_loop [] ?fs)))" by blast
  from a b show ?thesis by blast
qed

text \<open>
  C8. "Clear All Data" leaves the store empty, whatever it held. Processing a batch after
  that gives the store the batch alone would give, and a document of the batch gets a
  duplicate anomaly only when an earlier file of the same batch has a text of the same
  hash: never because of a document processed before the clear.
\<close>

theorem clear_forgets_documents:
  "run_script False True ups s = [] \<and>
   run_script True False fs (run_script False True ups s) = process_loop [] fs \<and>
   (\<forall>i. i < length fs \<and>
        with_msg is_duplicate_msg
          (doc_anomalies (run_script True False fs (run_script False True ups s) ! i)) \<noteq> [] \<longrightarrow>
        (\<exists>j < i. calculate_hash (extracted (fs ! j)) = calculate_hash (extracted (fs ! i))))"
proof (intro conjI allI impI)
  show c: "run_script False True ups s = []" by (simp add: run_script_def)
  show r: "run_script True False fs (run_script False True ups s) = process_loop [] fs"
    by (cases fs) (simp_all add: run_script_def)
  fix i
  assume a: "i < length fs \<and>
        with_msg is_duplicate_msg
          (doc_anomalies (run_script True False fs (run_script False True ups s) ! i)) \<noteq> []"
  define before where "before = process_loop [] (take i fs)"
  have len: "length before = i" using a by (simp add: before_def length_process_loop)
  have nth: "process_loop [] fs ! i = entry before (fs ! i)"
    using a process_loop_nth [of i fs "[]"] by (simp add: before_def)
  with a r have dup: "with_msg is_duplicate_msg (doc_anomalies (entry before (fs ! i))) \<noteq> []"
    by simp
  have ne: "extracted (fs ! i) \<noteq> []"
  proof
    assume "extracted (fs ! i) = []"
    then have "doc_anomalies (entry before (fs ! i)) = [(Critical, Could_not_extract)]"
      by (rule entry_anomalies_empty)
    with dup show False by (simp add: with_msg_def)
  qed
  from dup have "duplicate_rule before (extracted (fs ! i)) \<noteq> []"
    by (simp add: duplicate_anomalies [OF ne])
  then have "list_ex (\<lambda>d. doc_hash d = calculate_hash (extracted (fs ! i))) before"
    by (simp add: duplicate_rule_def split: if_splits)
  then obtain j where j: "j < length before"
    "doc_hash (before ! j) = calculate_hash (extracted (fs ! i))"
    by (auto simp: list_ex_iff in_set_conv_nth)
  from j(1) len a have jl: "j < length (take i fs)" by simp
  have "doc_hash (before ! j) = calculate_hash (extracted (take i fs ! j))"
    using process_loop_nth_hash [OF jl, of "[]"] by (simp add: before_def)
  also have "take i fs ! j = fs ! j" using j(1) len by simp
  finally have "calculate_hash (extracted (fs ! j)) = calculate_hash (extracted (fs ! i))"
    using j(2) by simp
  moreover have "j < i" using j(1) len by simp
  ultimately show "\<exists>j < i. calculate_hash (extracted (fs ! j)) = calculate_hash (extracted (fs ! i))"
    by blast
qed

theorem clear_forgets_documents_witness:
  "run_script False True [] (process_loop [] [image_with ''a.png'' ''x'']) = [] \<and>
   with_msg is_duplicate_msg
     (doc_anomalies
        (run_script True False [image_with ''b.png'' ''x'']
           (run_script False True [] (process_loop [] [image_with ''a.png'' ''x''])) ! 0)) = []"
proof -
  let ?old = "process_loop [] [image_with ''a.png'' ''x'']"
  let ?fs = "[image_with ''b.png'' ''x'']"
  note inst = clear_forgets_documents [of "[]" ?old ?fs]
  have "\<not> (\<exists>j < (0::nat). calculate_hash (extracted (?fs ! j)) = calculate_hash (extracted (?fs ! 0)))"
    by simp
  moreover have "(0::nat) < length ?fs" by simp
  ultimately have "with_msg is_duplicate_msg
     (doc_anomalies (run_script True False ?fs (run_script False True [] ?old) ! 0)) = []"
    using inst by blast
  with inst show ?thesis by blast
qed

text \<open>
  C10. Two files of a batch whose extracted text is empty are both stored with the hash of
  the empty string, so when the later one is processed the store already holds a record
  with its hash; still the later one gets no duplicate anomaly: its anomaly list is the
  single Critical extraction entry.
\<close>

theorem empty_documents_not_duplicates:
  assumes "i < j" and "j < length fs"
    and "extracted (fs ! i) = []" and "extracted (fs ! j) = []"
  shows "doc_hash (process_loop s fs ! (length s + i)) = calculate_hash [] \<and>
         doc_hash (process_loop s fs ! (length s + j)) = calculate_hash [] \<and>
         list_ex (\<lambda>d. doc_hash d = calculate_hash [])
           (process_loop s (take j fs)) \<and>
         process_loop s fs ! (length s + j) = last (process_one (process_loop s (take j fs)) (fs ! j)) \<and>
         doc_anomalies (process_loop s fs ! (length s + j)) = [(Critical, Could_not_extract)]"
proof -
  have i: "i < length fs" using assms by simp
  have it: "i < length (take j fs)" using assms by simp
  have "doc_hash (process_loop s (take j fs) ! (length s + i)) = calculate_hash (extracted (take j fs ! i))"
    using it by (rule process_loop_nth_hash)
  also have "take j fs ! i = fs ! i" using assms(1) by simp
  finally have h: "doc_hash (process_loop s (take j fs) ! (length s + i)) = calculate_hash []"
    using assms(3) by simp
  have "length s + i < length (process_loop s (take j fs))"
    using it by (simp add: length_process_loop)
  then have "process_loop s (take j fs) ! (length s + i) \<in> set (process_loop s (take j fs))"
    by (rule nth_mem)
  with h have "list_ex (\<lambda>d. doc_hash d = calculate_hash []) (process_loop s (take j fs))"
    by (auto simp: list_ex_iff)
  moreover have "doc_hash (process_loop s fs ! (length s + i)) = calculate_hash []"
    using process_loop_nth_hash [OF i, of s] assms(3) by simp
  moreover have "doc_hash (process_loop s fs ! (length s + j)) = calculate_hash []"
    using process_loop_nth_hash [OF assms(2), of s] assms(4) by simp
  moreover have "process_loop s fs ! (length s + j) =
      last (process_one (process_loop s (take j fs)) (fs ! j))"
    using assms(2) by (simp add: process_loop_nth last_process_one)
  moreover have "doc_anomalies (process_loop s fs ! (length s + j)) = [(Critical, Could_not_extract)]"
    using assms(2,4) by (rule process_loop_nth_empty)
  ultimately show ?thesis by blast
qed

theorem empty_documents_not_duplicates_witness:
  "doc_hash (process_loop [] [failed_pdf ''a.pdf'', failed_pdf ''b.pdf''] ! 0) = calculate_hash [] \<and>
   doc_hash (process_loop [] [failed_pdf ''a.pdf'', failed_pdf ''b.pdf''] ! 1) = calculate_hash [] \<and>
   doc_anomalies (process_loop [] [failed_pdf ''a.pdf'', failed_pdf ''b.pdf''] ! 1) =
     [(Critical, Could_not_extract)]"
proof -
  let ?fs = "[failed_pdf ''a.pdf'', failed_pdf ''b.pdf'']"
  have h1: "(0::nat) < 1" by simp
  have h2: "(1::nat) < length ?fs" by simp
  have h3: "extracted (?fs ! 0) = []" by (simp add: extracted_failed_pdf)
  have h4: "extracted (?fs ! 1) = []" by (simp add: extracted_failed_pdf)
  have l0: "length ([]::store) + 0 = 0" and l1: "length ([]::store) + 1 = 1" by simp_all
  from empty_documents_not_duplicates [OF h1 h2 h3 h4, of "[]"] show ?thesis
    unfolding l0 l1 by blast
qed

end
